theory Spec2Isabelle
  imports Main
begin

section \<open>The library page of shelfo: catalog filter and book detail session\<close>

text \<open>
  A shallow embedding of \<^verbatim>\<open>src/pages/LibraryPage.tsx\<close>: the React state of the
  component is a record, every event handler is a function from state to state, and the
  network is a parameter that tells how each request settles.

  Scope of the model. A JavaScript string is the list of its UTF-16 code units. The case
  mapping of \<^verbatim>\<open>toLowerCase\<close> follows the Unicode algorithm, with the tables of the
  Unicode Character Database as a parameter. JavaScript numbers are modelled as
  mathematical integers (\<^typ>\<open>int\<close>), so the rounding of integers beyond 2^53 is not part
  of the model.
\<close>

subsection \<open>Strings\<close>

text \<open>
  A string of the program is a sequence of UTF-16 code units, each a number below 65536.
  The functions below are defined on all lists of naturals, and no property needs the
  bound. \<open>lit\<close> writes a string of Basic Latin text, one code unit per character.
\<close>

type_synonym jsString = "nat list"

definition lit :: "string \<Rightarrow> jsString" where
  "lit s = map of_char s"

subsection \<open>Data\<close>

text \<open>
  \<^verbatim>\<open>interface ApiBook\<close>. The field \<^verbatim>\<open>id\<close> is called \<open>idB\<close> here (\<open>id\<close> is the
  identity function of HOL). \<^verbatim>\<open>pagesRead\<close> is declared a number, but the source reads
  it through \<^verbatim>\<open>pagesRead || 0\<close> and tests it against \<^verbatim>\<open>undefined\<close>: \<open>None\<close> is the
  absent field.
\<close>

record ApiBook =
  idB :: int
  title :: jsString
  author :: jsString
  category :: jsString
  isbn :: jsString
  status :: jsString
  pages :: int
  pagesRead :: "int option"
  publisher :: jsString
  coverUrl :: "jsString option"

text \<open>\<^verbatim>\<open>interface BooksResponse\<close>; \<open>data = None\<close> is a payload without its data field.\<close>

record BooksResponse =
  success :: bool
  data :: "ApiBook list option"
  timestamp :: jsString

text \<open>
  Modelled from the spec: the type \<^verbatim>\<open>ReadingStatus\<close> is imported from \<^verbatim>\<open>@/types\<close>,
  which is not among the sources. The page reads two fields of it,
  \<^verbatim>\<open>reading_status_id\<close> (compared with the selected status, a string) and \<^verbatim>\<open>status\<close>
  (the label compared with a book's status); the spec calls the list "an ordered sequence
  of { id, status label }".
\<close>

record ReadingStatus =
  reading_status_id :: jsString
  status :: jsString

text \<open>\<^verbatim>\<open>type FilterType = "all" | "status" | "category"\<close>\<close>

datatype FilterType = FilterAll | FilterStatus | FilterCategory

text \<open>
  The state hooks of the component, in the order of their \<^verbatim>\<open>useState\<close> calls. The
  drafts \<open>pagesRead\<close> and \<open>rating\<close> carry the source's names; the field of a book is
  written \<open>ApiBook.pagesRead\<close>.
\<close>

record page_state =
  searchQuery :: jsString
  activeFilter :: FilterType
  selectedStatus :: "jsString option"
  selectedCategory :: "jsString option"
  apiBooks :: "ApiBook list"
  selectedBook :: "ApiBook option"
  pagesRead :: int
  rating :: int

text \<open>\<^verbatim>\<open>x || 0\<close> on a number that may be absent.\<close>

definition or0 :: "int option \<Rightarrow> int" where
  "or0 v = (case v of None \<Rightarrow> 0 | Some n \<Rightarrow> (if n = 0 then 0 else n))"

text \<open>
  The truth value JavaScript gives a \<^verbatim>\<open>string | null\<close>: \<^verbatim>\<open>null\<close> and the empty
  string are falsy.
\<close>

definition truthy :: "jsString option \<Rightarrow> bool" where
  "truthy v = (case v of None \<Rightarrow> False | Some s \<Rightarrow> s \<noteq> [])"

subsection \<open>\<^verbatim>\<open>parseInt\<close> with no radix\<close>

text \<open>
  The built-in the pages-read input calls: skip leading white space, read a sign, read
  the prefix \<^verbatim>\<open>0x\<close> (radix 16, otherwise 10), take the longest run of digits; no
  digit gives NaN, here \<open>None\<close>. White space is the white space and the line
  terminators of ECMAScript: TAB, LF, VT, FF, CR, SP, NBSP, U+1680, U+2000 to U+200A,
  U+2028, U+2029, U+202F, U+205F, U+3000 and U+FEFF.
\<close>

definition isWhiteSpace :: "nat \<Rightarrow> bool" where
  "isWhiteSpace c =
     (c \<in> {0x9, 0xA, 0xB, 0xC, 0xD, 0x20, 0xA0, 0x1680, 0x2028, 0x2029, 0x202F, 0x205F,
            0x3000, 0xFEFF} \<or>
      (0x2000 \<le> c \<and> c \<le> 0x200A))"

definition digitValue :: "nat \<Rightarrow> nat option" where
  "digitValue n =
     (if 48 \<le> n \<and> n \<le> 57 then Some (n - 48)
      else if 97 \<le> n \<and> n \<le> 122 then Some (n - 87)
      else if 65 \<le> n \<and> n \<le> 90 then Some (n - 55)
      else None)"

definition isDigit :: "nat \<Rightarrow> nat \<Rightarrow> bool" where
  "isDigit R c = (case digitValue c of None \<Rightarrow> False | Some d \<Rightarrow> d < R)"

definition mathInt :: "nat \<Rightarrow> jsString \<Rightarrow> int" where
  "mathInt R Z = foldl (\<lambda>acc c. acc * int R + int (case digitValue c of None \<Rightarrow> 0 | Some d \<Rightarrow> d)) 0 Z"

definition parseDigits :: "nat \<Rightarrow> jsString \<Rightarrow> int option" where
  "parseDigits R S =
     (let Z = takeWhile (isDigit R) S in
      if Z = [] then None else Some (mathInt R Z))"

definition stripPrefix :: "jsString \<Rightarrow> nat \<times> jsString" where
  "stripPrefix S =
     (case S of
        a # b # rest \<Rightarrow>
          (if [a, b] = lit ''0x'' \<or> [a, b] = lit ''0X'' then (16, rest) else (10, S))
      | _ \<Rightarrow> (10, S))"

definition parseInt :: "jsString \<Rightarrow> int option" where
  "parseInt inputString =
     (let S = dropWhile isWhiteSpace inputString;
          sign = (case S of c # _ \<Rightarrow> (if [c] = lit ''-'' then - 1 else 1) | [] \<Rightarrow> (1::int));
          S1 = (case S of c # rest \<Rightarrow> (if [c] = lit ''+'' \<or> [c] = lit ''-'' then rest else S)
                | [] \<Rightarrow> S);
          (R, S2) = stripPrefix S1
      in map_option (\<lambda>m. sign * m) (parseDigits R S2))"

subsection \<open>The pages-read input\<close>

text \<open>
  \<^verbatim>\<open>onChange\<close> of the input (lines 406 to 411). The dialog body is rendered only while
  a book is selected, so without one there is no input and nothing changes.
\<close>

definition pagesReadOnChange :: "jsString \<Rightarrow> page_state \<Rightarrow> page_state" where
  "pagesReadOnChange targetValue st =
     (case selectedBook st of
        None \<Rightarrow> st
      | Some sb \<Rightarrow>
          (let v = or0 (parseInt targetValue) in
           if v \<le> pages sb then st\<lparr>pagesRead := v\<rparr> else st))"

text \<open>\<^verbatim>\<open>onClick\<close> of a list item (lines 261 to 265): open the book and seed the drafts.\<close>

definition openBook :: "ApiBook \<Rightarrow> page_state \<Rightarrow> page_state" where
  "openBook apiBook st =
     st\<lparr>selectedBook := Some apiBook, pagesRead := or0 (ApiBook.pagesRead apiBook), rating := 0\<rparr>"

text \<open>\<^verbatim>\<open>onOpenChange\<close> of the dialog (line 315): closing it clears the selected book.\<close>

definition onOpenChange :: "bool \<Rightarrow> page_state \<Rightarrow> page_state" where
  "onOpenChange opn st = (if \<not> opn then st\<lparr>selectedBook := None\<rparr> else st)"

subsection \<open>The catalog filter\<close>

text \<open>
  \<^verbatim>\<open>String.prototype.toLowerCase\<close>: the string is read as code points (a leading
  surrogate followed by a trailing one is one code point), every code point is replaced
  by its lowercase mapping, and the result is written back as code units. The mapping is
  the one of the Unicode Character Database, with the locale-insensitive rows of
  SpecialCasing: U+0130 becomes U+0069 U+0307, and the capital sigma U+03A3 becomes the
  final sigma U+03C2 where the condition Final_Sigma holds; every other code point takes
  its simple lowercase mapping.

  The tables of the database are not part of the program: the simple lowercase mapping
  and the properties Cased and Case_Ignorable are a parameter.
\<close>

record UnicodeData =
  simpleLowercase :: "nat \<Rightarrow> nat"
  cased :: "nat \<Rightarrow> bool"
  caseIgnorable :: "nat \<Rightarrow> bool"

definition isLeadingSurrogate :: "nat \<Rightarrow> bool" where
  "isLeadingSurrogate c = (0xD800 \<le> c \<and> c \<le> 0xDBFF)"

definition isTrailingSurrogate :: "nat \<Rightarrow> bool" where
  "isTrailingSurrogate c = (0xDC00 \<le> c \<and> c \<le> 0xDFFF)"

fun stringToCodePoints :: "jsString \<Rightarrow> nat list" where
  "stringToCodePoints (a # b # rest) =
     (if isLeadingSurrogate a \<and> isTrailingSurrogate b
      then ((a - 0xD800) * 0x400 + (b - 0xDC00) + 0x10000) # stringToCodePoints rest
      else a # stringToCodePoints (b # rest))"
| "stringToCodePoints [a] = [a]"
| "stringToCodePoints [] = []"

definition codePointToUnits :: "nat \<Rightarrow> jsString" where
  "codePointToUnits cp =
     (if cp \<le> 0xFFFF then [cp]
      else [(cp - 0x10000) div 0x400 + 0xD800, (cp - 0x10000) mod 0x400 + 0xDC00])"

definition codePointsToString :: "nat list \<Rightarrow> jsString" where
  "codePointsToString cps = concat (map codePointToUnits cps)"

text \<open>
  A sequence that starts with zero or more case-ignorable code points and then a cased
  one. Final_Sigma: the sigma is preceded by a cased letter and then zero or more
  case-ignorable code points (read backwards from the sigma: \<open>preceding\<close> is the text
  in front of it, reversed), and is not followed by zero or more case-ignorable code
  points and then a cased letter.
\<close>

fun casedAfterIgnorables :: "UnicodeData \<Rightarrow> nat list \<Rightarrow> bool" where
  "casedAfterIgnorables u [] = False"
| "casedAfterIgnorables u (c # cs) =
     (cased u c \<or> (caseIgnorable u c \<and> casedAfterIgnorables u cs))"

definition finalSigma :: "UnicodeData \<Rightarrow> nat list \<Rightarrow> nat list \<Rightarrow> bool" where
  "finalSigma u preceding following =
     (casedAfterIgnorables u preceding \<and> \<not> casedAfterIgnorables u following)"

definition lowercaseMapping :: "UnicodeData \<Rightarrow> nat list \<Rightarrow> nat \<Rightarrow> nat list \<Rightarrow> nat list" where
  "lowercaseMapping u preceding c following =
     (if c = 0x130 then [0x69, 0x307]
      else if c = 0x3A3 \<and> finalSigma u preceding following then [0x3C2]
      else [simpleLowercase u c])"

fun toLowercase :: "UnicodeData \<Rightarrow> nat list \<Rightarrow> nat list \<Rightarrow> nat list" where
  "toLowercase u preceding [] = []"
| "toLowercase u preceding (c # following) =
     lowercaseMapping u preceding c following @ toLowercase u (c # preceding) following"

definition toLowerCase :: "UnicodeData \<Rightarrow> jsString \<Rightarrow> jsString" where
  "toLowerCase u S = codePointsToString (toLowercase u [] (stringToCodePoints S))"

text \<open>
  \<^verbatim>\<open>String.prototype.includes\<close>, here \<open>includes_str\<close>: the search string occurs at some position of the
  receiver; the empty search string occurs in every string.
\<close>

fun startsWith :: "jsString \<Rightarrow> jsString \<Rightarrow> bool" where
  "startsWith s [] = True"
| "startsWith [] (b # q) = False"
| "startsWith (a # s) (b # q) = (a = b \<and> startsWith s q)"

fun includes_str :: "jsString \<Rightarrow> jsString \<Rightarrow> bool" where
  "includes_str [] q = (q = [])"
| "includes_str (c # cs) q = (startsWith (c # cs) q \<or> includes_str cs q)"

text \<open>The constant \<^verbatim>\<open>matchesSearch\<close> of the filter callback (lines 105 to 108).\<close>

definition matchesSearch :: "UnicodeData \<Rightarrow> jsString \<Rightarrow> ApiBook \<Rightarrow> bool" where
  "matchesSearch u q book =
     (q = [] \<or>
      includes_str (toLowerCase u (title book)) (toLowerCase u q) \<or>
      includes_str (toLowerCase u (author book)) (toLowerCase u q))"

text \<open>
  \<^verbatim>\<open>Array.prototype.find\<close> over the reading statuses is \<^const>\<open>find\<close> of HOL: the first
  element that satisfies the test, \<open>None\<close> for \<^verbatim>\<open>undefined\<close>.

  The callback of \<^verbatim>\<open>apiBooks.filter\<close> (lines 103 to 120). The guards
  \<^verbatim>\<open>&& selectedStatus\<close> and \<^verbatim>\<open>&& selectedCategory\<close> test the truth value of a
  \<^verbatim>\<open>string | null\<close>.
\<close>

definition bookVisible ::
  "UnicodeData \<Rightarrow> ReadingStatus list \<Rightarrow> page_state \<Rightarrow> ApiBook \<Rightarrow> bool" where
  "bookVisible u readingStatuses st book =
     (if activeFilter st = FilterStatus \<and> truthy (selectedStatus st) then
        (case find (\<lambda>s. Some (reading_status_id s) = selectedStatus st) readingStatuses of
           None \<Rightarrow> False
         | Some s \<Rightarrow> matchesSearch u (searchQuery st) book \<and> ApiBook.status book = ReadingStatus.status s)
      else if activeFilter st = FilterCategory \<and> truthy (selectedCategory st) then
        matchesSearch u (searchQuery st) book \<and> Some (category book) = selectedCategory st
      else matchesSearch u (searchQuery st) book)"

text \<open>\<^verbatim>\<open>filteredApiBooks\<close> (lines 100 to 121).\<close>

definition filteredApiBooks ::
  "UnicodeData \<Rightarrow> ReadingStatus list \<Rightarrow> page_state \<Rightarrow> ApiBook list" where
  "filteredApiBooks u readingStatuses st =
     (if length (apiBooks st) = 0 then []
      else filter (bookVisible u readingStatuses st) (apiBooks st))"

text \<open>\<^verbatim>\<open>handleFilterChange\<close> (lines 124 to 128).\<close>

definition handleFilterChange :: "FilterType \<Rightarrow> page_state \<Rightarrow> page_state" where
  "handleFilterChange flt st =
     st\<lparr>activeFilter := flt, selectedStatus := None, selectedCategory := None\<rparr>"

text \<open>Clicking a status badge or a category badge (lines 202 to 204 and 223 to 225).\<close>

definition statusBadgeOnClick :: "ReadingStatus \<Rightarrow> page_state \<Rightarrow> page_state" where
  "statusBadgeOnClick s st =
     st\<lparr>selectedStatus :=
          (if selectedStatus st = Some (reading_status_id s) then None
           else Some (reading_status_id s))\<rparr>"

text \<open>
  The \<^verbatim>\<open>variant\<close> of a status badge (line 200): the badge is drawn as selected when
  \<^verbatim>\<open>selectedStatus === status.reading_status_id\<close>.
\<close>

definition statusBadgeSelected :: "ReadingStatus \<Rightarrow> page_state \<Rightarrow> bool" where
  "statusBadgeSelected s st = (selectedStatus st = Some (reading_status_id s))"

definition categoryBadgeOnClick :: "jsString \<Rightarrow> page_state \<Rightarrow> page_state" where
  "categoryBadgeOnClick c st =
     st\<lparr>selectedCategory := (if selectedCategory st = Some c then None else Some c)\<rparr>"

subsection \<open>The words of the specification: case-insensitive substring\<close>

text \<open>
  For Basic Latin text. Two characters are equal up to case when they are equal or one is
  the capital (A to Z) of the other. A query is a case-insensitive substring of a text
  when, at some position of the text, the characters of the query follow one by one up to
  case.
\<close>

definition isUpper :: "nat \<Rightarrow> bool" where
  "isUpper c = (65 \<le> c \<and> c \<le> 90)"

definition sameLetter :: "nat \<Rightarrow> nat \<Rightarrow> bool" where
  "sameLetter a b =
     (a = b \<or> (isUpper a \<and> b = a + 32) \<or> (isUpper b \<and> a = b + 32))"




fun ciPrefix :: "jsString \<Rightarrow> jsString \<Rightarrow> bool" where
  "ciPrefix [] t = True"
| "ciPrefix (a # q) [] = False"
| "ciPrefix (a # q) (b # t) = (sameLetter a b \<and> ciPrefix q t)"

fun ciSubstring :: "jsString \<Rightarrow> jsString \<Rightarrow> bool" where
  "ciSubstring q [] = (q = [])"
| "ciSubstring q (c # cs) = (ciPrefix q (c # cs) \<or> ciSubstring q cs)"

subsection \<open>The network\<close>

text \<open>
  The three requests the page sends. The URL is
  \<^verbatim>\<open>${baseURL}/api/books\<close>, \<^verbatim>\<open>${baseURL}/api/books/${id}/pages-read\<close> (PUT, body
  \<^verbatim>\<open>{ pagesRead }\<close>) or \<^verbatim>\<open>${baseURL}/api/books/${id}/review\<close> (POST, body
  \<^verbatim>\<open>{ rating, comment }\<close>); a request is kept as its method and the values it carries.
\<close>

datatype request =
    GetBooks
  | PutPagesRead int int
  | PostReview int int jsString

text \<open>
  What the page reads of a response: \<^verbatim>\<open>response.ok\<close> and \<^verbatim>\<open>response.json()\<close>, where
  \<open>None\<close> is a body that does not parse (the promise of \<^verbatim>\<open>json()\<close> rejects).
\<close>

record response =
  ok :: bool
  json :: "BooksResponse option"

text \<open>
  The promise of \<^verbatim>\<open>fetch\<close> rejects on a network error and resolves with a response
  otherwise, also with a status outside 200 to 299. The network is a parameter of the
  handlers: it tells how each request settles.
\<close>

datatype fetch_outcome = Rejected | Resolved response

type_synonym network = "request \<Rightarrow> fetch_outcome"

text \<open>
  \<^verbatim>\<open>fetchBooks\<close> (lines 77 to 93): the new state and the returned value, \<open>None\<close> for
  \<^verbatim>\<open>null\<close>. Every exception is caught inside, so the function always returns. An array
  is truthy also when it is empty.
\<close>

definition fetchBooks :: "network \<Rightarrow> page_state \<Rightarrow> page_state \<times> ApiBook list option" where
  "fetchBooks net st =
     (case net GetBooks of
        Rejected \<Rightarrow> (st, None)
      | Resolved resp \<Rightarrow>
          (if ok resp then
             (case json resp of
                None \<Rightarrow> (st, None)
              | Some result \<Rightarrow>
                  (if success result then
                     (case data result of
                        None \<Rightarrow> (st, None)
                      | Some d \<Rightarrow> (st\<lparr>apiBooks := d\<rparr>, Some d))
                   else (st, None)))
           else (st, None)))"

subsection \<open>The save transaction\<close>

text \<open>
  \<^verbatim>\<open>onClick\<close> of the Save button (lines 436 to 492): the new state and the requests
  issued, in their order. The whole body stands in one \<^verbatim>\<open>try\<close>: when an awaited
  \<^verbatim>\<open>fetch\<close> rejects, control passes to the \<^verbatim>\<open>catch\<close>, which logs and changes
  nothing, so the statements after the rejected request do not run.
\<close>

definition putRequest :: "ApiBook \<Rightarrow> page_state \<Rightarrow> request list" where
  "putRequest sb st =
     (if pagesRead st \<noteq> or0 (ApiBook.pagesRead sb)
      then [PutPagesRead (idB sb) (pagesRead st)] else [])"

definition postRequest :: "ApiBook \<Rightarrow> page_state \<Rightarrow> request list" where
  "postRequest sb st =
     (if rating st > 0 then [PostReview (idB sb) (rating st) []] else [])"

definition rejects :: "network \<Rightarrow> request list \<Rightarrow> bool" where
  "rejects net rs = list_ex (\<lambda>r. net r = Rejected) rs"

definition reconcile :: "ApiBook \<Rightarrow> ApiBook list option \<Rightarrow> page_state \<Rightarrow> page_state" where
  "reconcile sb updatedBooks st =
     (case updatedBooks of
        None \<Rightarrow> st
      | Some bs \<Rightarrow>
          (case find (\<lambda>b. idB b = idB sb) bs of
             None \<Rightarrow> st
           | Some updatedBook \<Rightarrow>
               st\<lparr>selectedBook := Some updatedBook,
                  pagesRead := or0 (ApiBook.pagesRead updatedBook)\<rparr>))"

definition saveOnClick :: "network \<Rightarrow> page_state \<Rightarrow> page_state \<times> request list" where
  "saveOnClick net st =
     (case selectedBook st of
        None \<Rightarrow> (st, [])
      | Some sb \<Rightarrow>
          (if rejects net (putRequest sb st) then (st, putRequest sb st)
           else if rejects net (postRequest sb st) then (st, putRequest sb st @ postRequest sb st)
           else
             (let (st1, updatedBooks) = fetchBooks net st;
                  st2 = reconcile sb updatedBooks st1
              in (st2\<lparr>selectedBook := None\<rparr>,
                  putRequest sb st @ postRequest sb st @ [GetBooks]))))"

text \<open>The edit session is closed when no book is selected (the dialog is open otherwise).\<close>

definition sessionClosed :: "page_state \<Rightarrow> bool" where
  "sessionClosed st = (selectedBook st = None)"

subsection \<open>Reading the issued requests\<close>

definition isPut :: "request \<Rightarrow> bool" where
  "isPut r = (case r of PutPagesRead _ _ \<Rightarrow> True | _ \<Rightarrow> False)"

definition isReview :: "request \<Rightarrow> bool" where
  "isReview r = (case r of PostReview _ _ _ \<Rightarrow> True | _ \<Rightarrow> False)"

text \<open>Request \<open>a\<close> stands in the sequence before the first occurrence of \<open>b\<close>, if any.\<close>

definition issuedBefore :: "request \<Rightarrow> request \<Rightarrow> request list \<Rightarrow> bool" where
  "issuedBefore a b tr = (a \<in> set (takeWhile (\<lambda>r. r \<noteq> b) tr))"

text \<open>
  The ways a refresh fails: the request is rejected, the response is not a 2xx one, its
  body does not parse, it says \<^verbatim>\<open>success: false\<close>, or it has no data.
\<close>

definition refreshFailure :: "fetch_outcome \<Rightarrow> bool" where
  "refreshFailure out =
     (case out of
        Rejected \<Rightarrow> True
      | Resolved resp \<Rightarrow>
          (\<not> ok resp \<or>
           (case json resp of
              None \<Rightarrow> True
            | Some result \<Rightarrow> (\<not> success result \<or> data result = None))))"

text \<open>
  The label a selected status id resolves to through the reading statuses, \<open>None\<close> when
  no entry carries the id.
\<close>

definition statusLabel :: "ReadingStatus list \<Rightarrow> jsString \<Rightarrow> jsString option" where
  "statusLabel readingStatuses sid =
     map_option ReadingStatus.status (find (\<lambda>s. reading_status_id s = sid) readingStatuses)"

subsection \<open>Example data\<close>

text \<open>
  A table that agrees with the Unicode Character Database on Basic Latin and on the Greek
  letters U+0391 to U+03C9 (the capitals U+0391 to U+03A1 and U+03A3 to U+03A9 map to the
  small letters 32 places further, U+03C2 is the final sigma); other code points are left
  unmapped, uncased and not case-ignorable.
\<close>

definition ucdFragment :: UnicodeData where
  "ucdFragment =
     \<lparr>simpleLowercase =
        (\<lambda>c. if (0x41 \<le> c \<and> c \<le> 0x5A) \<or> (0x391 \<le> c \<and> c \<le> 0x3A9 \<and> c \<noteq> 0x3A2)
             then c + 32 else c),
      cased =
        (\<lambda>c. (0x41 \<le> c \<and> c \<le> 0x5A) \<or> (0x61 \<le> c \<and> c \<le> 0x7A) \<or>
             (0x391 \<le> c \<and> c \<le> 0x3A9 \<and> c \<noteq> 0x3A2) \<or> (0x3B1 \<le> c \<and> c \<le> 0x3C9)),
      caseIgnorable = (\<lambda>c. c \<in> {0x27, 0x2E, 0x3A, 0x5E, 0x60})\<rparr>"

text \<open>The catalog of the specification's scenarios, and a book whose page count is 0.\<close>

definition dune :: ApiBook where
  "dune = \<lparr>idB = 1, title = lit ''Dune'', author = lit ''Frank Herbert'', category = lit ''Science Fiction'',
           isbn = lit ''9780441013593'', status = lit ''Reading'', pages = 400, pagesRead = Some 50,
           publisher = lit ''Ace'', coverUrl = None\<rparr>"

definition foundation :: ApiBook where
  "foundation = \<lparr>idB = 2, title = lit ''Foundation'', author = lit ''Isaac Asimov'',
           category = lit ''Science Fiction'', isbn = lit ''9780553293357'', status = lit ''Finished'',
           pages = 400, pagesRead = Some 400, publisher = lit ''Bantam'', coverUrl = None\<rparr>"

definition pamphlet :: ApiBook where
  "pamphlet = \<lparr>idB = 3, title = lit ''Pamphlet'', author = lit ''Anon'', category = lit ''Misc'',
           isbn = [], status = lit ''Not started'', pages = 0, pagesRead = Some 0,
           publisher = [], coverUrl = None\<rparr>"

definition statuses :: "ReadingStatus list" where
  "statuses = [\<lparr>reading_status_id = lit ''s1'', status = lit ''Not started''\<rparr>,
               \<lparr>reading_status_id = lit ''s2'', status = lit ''Reading''\<rparr>,
               \<lparr>reading_status_id = lit ''s3'', status = lit ''Finished''\<rparr>]"

text \<open>
  A book with the Greek title KOSMOS in capitals (U+039A U+039F U+03A3 U+039C U+039F
  U+03A3), and the query made of its first three letters.
\<close>

definition kosmos :: ApiBook where
  "kosmos = \<lparr>idB = 4, title = [0x39A, 0x39F, 0x3A3, 0x39C, 0x39F, 0x3A3],
           author = lit ''Alexander von Humboldt'', category = lit ''Science'', isbn = [],
           status = lit ''Not started'', pages = 500, pagesRead = Some 0,
           publisher = [], coverUrl = None\<rparr>"

definition kosQuery :: jsString where
  "kosQuery = [0x39A, 0x39F, 0x3A3]"

text \<open>A reference list in which one status has the empty string as its id.\<close>

definition statusesEmptyId :: "ReadingStatus list" where
  "statusesEmptyId = [\<lparr>reading_status_id = [], status = lit ''Finished''\<rparr>,
                      \<lparr>reading_status_id = lit ''s2'', status = lit ''Reading''\<rparr>]"

text \<open>The initial values of the state hooks, and the page after the catalog has loaded.\<close>

definition initialState :: page_state where
  "initialState = \<lparr>searchQuery = [], activeFilter = FilterAll, selectedStatus = None,
      selectedCategory = None, apiBooks = [], selectedBook = None, pagesRead = 0, rating = 0\<rparr>"

definition loaded :: page_state where
  "loaded = initialState\<lparr>apiBooks := [dune, foundation, pamphlet]\<rparr>"

text \<open>The status mode is chosen and the badge of the status with the empty id is clicked.\<close>

definition emptyIdSelected :: page_state where
  "emptyIdSelected =
     statusBadgeOnClick (hd statusesEmptyId) (handleFilterChange FilterStatus loaded)"


text \<open>Dune is open, the draft is 120 pages and three stars are chosen.\<close>

definition editing :: page_state where
  "editing = (pagesReadOnChange (lit ''120'') (openBook dune loaded))\<lparr>rating := 3\<rparr>"

text \<open>Dune as the store returns it once the progress update has been written.\<close>

definition duneUpdated :: ApiBook where
  "duneUpdated = dune\<lparr>ApiBook.pagesRead := Some 120\<rparr>"

text \<open>Networks: how each request settles.\<close>

definition booksPayload :: "ApiBook list \<Rightarrow> response" where
  "booksPayload bs = \<lparr>ok = True, json = Some \<lparr>success = True, data = Some bs, timestamp = []\<rparr>\<rparr>"

definition plainResponse :: "bool \<Rightarrow> response" where
  "plainResponse b = \<lparr>ok = b, json = None\<rparr>"

definition netServing :: "ApiBook list \<Rightarrow> network" where
  "netServing bs r = (case r of GetBooks \<Rightarrow> Resolved (booksPayload bs)
                      | _ \<Rightarrow> Resolved (plainResponse True))"

definition netWritesRejected :: "ApiBook list \<Rightarrow> network" where
  "netWritesRejected bs r = (case r of GetBooks \<Rightarrow> Resolved (booksPayload bs) | _ \<Rightarrow> Rejected)"

definition netWritesRefused :: "ApiBook list \<Rightarrow> network" where
  "netWritesRefused bs r = (case r of GetBooks \<Rightarrow> Resolved (booksPayload bs)
                            | _ \<Rightarrow> Resolved (plainResponse False))"

definition netRefreshDown :: network where
  "netRefreshDown r = (case r of GetBooks \<Rightarrow> Rejected | _ \<Rightarrow> Resolved (plainResponse True))"

section \<open>Properties\<close>

subsection \<open>Unfolding the definitions on concrete data\<close>

lemmas parse_defs = parseInt_def stripPrefix_def parseDigits_def isDigit_def digitValue_def
  mathInt_def isWhiteSpace_def or0_def lit_def

lemmas example_defs = dune_def foundation_def pamphlet_def duneUpdated_def statuses_def
  statusesEmptyId_def initialState_def loaded_def editing_def booksPayload_def
  kosmos_def kosQuery_def ucdFragment_def
  plainResponse_def netServing_def netWritesRejected_def netWritesRefused_def
  netRefreshDown_def

lemmas handler_defs = pagesReadOnChange_def openBook_def onOpenChange_def
  handleFilterChange_def statusBadgeOnClick_def categoryBadgeOnClick_def

lemmas save_defs = saveOnClick_def putRequest_def postRequest_def rejects_def
  reconcile_def fetchBooks_def sessionClosed_def

lemma editing_eq:
  "editing = loaded\<lparr>selectedBook := Some dune, pagesRead := 120, rating := 3\<rparr>"
  by (simp add: editing_def handler_defs parse_defs dune_def)

lemma pagesReadOnChange_open:
  "selectedBook st = Some sb \<Longrightarrow>
   pagesReadOnChange tv st =
     (if or0 (parseInt tv) \<le> pages sb then st\<lparr>pagesRead := or0 (parseInt tv)\<rparr> else st)"
  by (simp add: pagesReadOnChange_def Let_def)

text \<open>
  Claim C1 (progress clamp): the applied draft after an edit is the proposed value \<open>v\<close>
  when \<open>0 \<le> v \<le> pages\<close> and the earlier draft otherwise; negative values are never
  applied. The handler tests the upper bound only (lemma \<open>pagesReadOnChange_open\<close>
  above), although the input element declares \<^verbatim>\<open>min="0"\<close>. With Dune open (400
  pages, draft 50), typing \<^verbatim>\<open>-5\<close> makes the draft \<open>- 5\<close>, where the claim keeps 50.
\<close>

theorem negative_pages_read_applied:
  "pagesRead (openBook dune loaded) = 50 \<and>
   pagesRead (pagesReadOnChange (lit ''-5'') (openBook dune loaded)) = - 5"
  by (simp add: handler_defs parse_defs dune_def)

text \<open>
  Claim C10: when the open book has \<open>pages = 0\<close>, an edit whose proposed value is
  greater than 0 is rejected and leaves the state as it was, and an edit whose proposed
  value is at most 0 is applied. The proposed value is what the handler computes from the
  text of the input, \<^verbatim>\<open>parseInt(e.target.value) || 0\<close>.
\<close>

theorem zero_pages_rejects_positive:
  assumes "selectedBook st = Some sb" and "pages sb = 0"
  shows "(0 < or0 (parseInt tv) \<longrightarrow> pagesReadOnChange tv st = st) \<and>
         (or0 (parseInt tv) \<le> 0 \<longrightarrow>
            pagesReadOnChange tv st = st\<lparr>pagesRead := or0 (parseInt tv)\<rparr>)"
  using assms by (simp add: pagesReadOnChange_open)

text \<open>
  On the book of 0 pages: typing 7 changes nothing, typing \<^verbatim>\<open>-3\<close> is applied.
\<close>

theorem zero_pages_rejects_positive_witness:
  "pagesReadOnChange (lit ''7'') (openBook pamphlet loaded) = openBook pamphlet loaded \<and>
   pagesRead (pagesReadOnChange (lit ''-3'') (openBook pamphlet loaded)) = - 3"
proof -
  have sel: "selectedBook (openBook pamphlet loaded) = Some pamphlet"
    by (simp add: openBook_def)
  have pg: "pages pamphlet = 0"
    by (simp add: pamphlet_def)
  have p7: "0 < or0 (parseInt (lit ''7''))" and p3: "or0 (parseInt (lit ''-3'')) = - 3"
    by (simp_all add: parse_defs)
  from zero_pages_rejects_positive [OF sel pg, of "(lit ''7'')"] p7
  have a: "pagesReadOnChange (lit ''7'') (openBook pamphlet loaded) = openBook pamphlet loaded"
    by simp
  from zero_pages_rejects_positive [OF sel pg, of "(lit ''-3'')"] p3
  have b: "pagesRead (pagesReadOnChange (lit ''-3'') (openBook pamphlet loaded)) = - 3"
    by simp
  from a b show ?thesis by simp
qed

lemma filteredApiBooks_filter:
  "filteredApiBooks u rs st = filter (bookVisible u rs st) (apiBooks st)"
  by (simp add: filteredApiBooks_def)

lemma bookVisible_after_change:
  "bookVisible u rs (handleFilterChange m st) = matchesSearch u (searchQuery st)"
  by (rule ext) (simp add: handleFilterChange_def bookVisible_def truthy_def)

text \<open>
  Claim C8: for every filter mode \<open>m\<close>, switching to \<open>m\<close> sets the mode and resets
  both the selected status and the selected category to none, and the visible books
  computed right after are the books that pass the search predicate alone: the mode does
  not narrow them.
\<close>

theorem handleFilterChange_clears_selection:
  "activeFilter (handleFilterChange m st) = m \<and>
   selectedStatus (handleFilterChange m st) = None \<and>
   selectedCategory (handleFilterChange m st) = None \<and>
   filteredApiBooks u rs (handleFilterChange m st) =
     filter (matchesSearch u (searchQuery st)) (apiBooks st)"
proof -
  have "apiBooks (handleFilterChange m st) = apiBooks st"
    by (simp add: handleFilterChange_def)
  then have "filteredApiBooks u rs (handleFilterChange m st) =
     filter (matchesSearch u (searchQuery st)) (apiBooks st)"
    by (simp add: filteredApiBooks_filter bookVisible_after_change)
  then show ?thesis
    by (simp add: handleFilterChange_def)
qed

text \<open>
  After the status Finished has been selected, switching to the category mode clears the
  selection and every book of the catalog is visible again.
\<close>

theorem handleFilterChange_clears_selection_witness:
  "selectedStatus (handleFilterChange FilterCategory
      (statusBadgeOnClick (statuses ! 2) (handleFilterChange FilterStatus loaded))) = None \<and>
   map title (filteredApiBooks ucdFragment statuses (handleFilterChange FilterCategory
      (statusBadgeOnClick (statuses ! 2) (handleFilterChange FilterStatus loaded)))) =
     [(lit ''Dune''), (lit ''Foundation''), (lit ''Pamphlet'')]"
proof -
  let ?st = "statusBadgeOnClick (statuses ! 2) (handleFilterChange FilterStatus loaded)"
  have q: "searchQuery ?st = []" and bs: "apiBooks ?st = [dune, foundation, pamphlet]"
    by (simp_all add: handler_defs loaded_def initialState_def)
  from handleFilterChange_clears_selection [of FilterCategory ?st ucdFragment statuses]
  show ?thesis
    by (simp add: q bs matchesSearch_def dune_def foundation_def pamphlet_def)
qed

subsection \<open>The save transaction, case by case\<close>

lemma rejects_append: "rejects net (xs @ ys) = (rejects net xs \<or> rejects net ys)"
  by (simp add: rejects_def list_ex_iff) blast

lemma fetchBooks_failure:
  "refreshFailure (net GetBooks) \<Longrightarrow> fetchBooks net st = (st, None)"
  by (auto simp: refreshFailure_def fetchBooks_def split: fetch_outcome.splits option.splits)

lemma fetchBooks_success:
  "net GetBooks = Resolved resp \<Longrightarrow> ok resp \<Longrightarrow> json resp = Some result \<Longrightarrow>
   success result \<Longrightarrow> data result = Some bs \<Longrightarrow>
   fetchBooks net st = (st\<lparr>apiBooks := bs\<rparr>, Some bs)"
  by (simp add: fetchBooks_def)

lemma saveOnClick_thrown:
  "selectedBook st = Some sb \<Longrightarrow> rejects net (putRequest sb st @ postRequest sb st) \<Longrightarrow>
   saveOnClick net st =
     (st, if rejects net (putRequest sb st) then putRequest sb st
          else putRequest sb st @ postRequest sb st)"
  by (auto simp: saveOnClick_def rejects_append)

lemma saveOnClick_completed:
  "selectedBook st = Some sb \<Longrightarrow> \<not> rejects net (putRequest sb st @ postRequest sb st) \<Longrightarrow>
   saveOnClick net st =
     ((reconcile sb (snd (fetchBooks net st)) (fst (fetchBooks net st)))\<lparr>selectedBook := None\<rparr>,
      putRequest sb st @ postRequest sb st @ [GetBooks])"
  by (simp add: saveOnClick_def rejects_append case_prod_beta Let_def)

lemma GetBooks_not_write: "GetBooks \<notin> set (putRequest sb st)" "GetBooks \<notin> set (postRequest sb st)"
  by (simp_all add: putRequest_def postRequest_def)

lemma refresh_issued_iff:
  "selectedBook st = Some sb \<Longrightarrow>
   GetBooks \<in> set (snd (saveOnClick net st)) \<longleftrightarrow>
     \<not> rejects net (putRequest sb st @ postRequest sb st)"
  by (cases "rejects net (putRequest sb st @ postRequest sb st)")
     (simp_all add: saveOnClick_thrown saveOnClick_completed GetBooks_not_write)

lemma saveOnClick_closed: "selectedBook st = None \<Longrightarrow> saveOnClick net st = (st, [])"
  by (simp add: saveOnClick_def)

lemma editing_requests:
  "putRequest dune editing = [PutPagesRead 1 120]"
  "postRequest dune editing = [PostReview 1 3 []]"
  by (simp_all add: editing_eq putRequest_def postRequest_def dune_def or0_def)

lemma editing_selected: "selectedBook editing = Some dune"
  by (simp add: editing_eq)

subsection \<open>A write that fails\<close>

text \<open>
  Claim C2 as stated says that the session closes also when the progress update or the
  review fails. It does not when the awaited \<^verbatim>\<open>fetch\<close> rejects: with Dune open, a
  draft of 120 pages and a network that rejects the writes, the save issues the PUT
  alone, leaves the state as it was, and the session stays open.
\<close>

theorem save_closes_counterexample:
  "netWritesRejected [duneUpdated, foundation] (PutPagesRead 1 120) = Rejected \<and>
   selectedBook editing = Some dune \<and>
   saveOnClick (netWritesRejected [duneUpdated, foundation]) editing =
     (editing, [PutPagesRead 1 120]) \<and>
   sessionClosed editing = False"
  by (simp add: saveOnClick_def editing_requests editing_selected rejects_def
      netWritesRejected_def sessionClosed_def)

text \<open>
  Claim C2, amended: in a save with a book open, the refresh is requested exactly when
  neither the progress update nor the review was rejected by the network (a response with
  a status outside 2xx is not a rejection, and is not looked at); once the refresh has
  been requested the session is closed, whatever the refresh returned; and when a write
  was rejected the refresh is not requested, the state is unchanged and the session stays
  open with its drafts.
\<close>

theorem save_after_failed_write:
  assumes "selectedBook st = Some sb"
  shows "(GetBooks \<in> set (snd (saveOnClick net st)) \<longleftrightarrow>
            \<not> rejects net (putRequest sb st @ postRequest sb st)) \<and>
         (GetBooks \<in> set (snd (saveOnClick net st)) \<longrightarrow>
            sessionClosed (fst (saveOnClick net st))) \<and>
         (GetBooks \<notin> set (snd (saveOnClick net st)) \<longrightarrow>
            fst (saveOnClick net st) = st \<and> \<not> sessionClosed (fst (saveOnClick net st)))"
proof (cases "rejects net (putRequest sb st @ postRequest sb st)")
  case True
  with assms show ?thesis
    by (simp add: refresh_issued_iff saveOnClick_thrown sessionClosed_def GetBooks_not_write)
next
  case False
  with assms show ?thesis
    by (simp add: refresh_issued_iff saveOnClick_completed sessionClosed_def)
qed

text \<open>
  A store that answers the writes with an error status: the save goes on to the refresh
  and closes. A network that rejects the writes: no refresh, and the state stays.
\<close>

theorem save_after_failed_write_witness:
  "netWritesRefused [dune, foundation] (PutPagesRead 1 120) = Resolved (plainResponse False) \<and>
   ok (plainResponse False) = False \<and>
   GetBooks \<in> set (snd (saveOnClick (netWritesRefused [dune, foundation]) editing)) \<and>
   sessionClosed (fst (saveOnClick (netWritesRefused [dune, foundation]) editing)) \<and>
   GetBooks \<notin> set (snd (saveOnClick (netWritesRejected [dune, foundation]) editing)) \<and>
   fst (saveOnClick (netWritesRejected [dune, foundation]) editing) = editing"
proof -
  have a: "\<not> rejects (netWritesRefused [dune, foundation])
             (putRequest dune editing @ postRequest dune editing)"
    by (simp add: editing_requests rejects_def netWritesRefused_def)
  have b: "rejects (netWritesRejected [dune, foundation])
             (putRequest dune editing @ postRequest dune editing)"
    by (simp add: editing_requests rejects_def netWritesRejected_def)
  have c: "netWritesRefused [dune, foundation] (PutPagesRead 1 120) = Resolved (plainResponse False)"
    "ok (plainResponse False) = False"
    by (simp_all add: netWritesRefused_def plainResponse_def)
  from save_after_failed_write [OF editing_selected, of "netWritesRefused [dune, foundation]"] a
  have d: "GetBooks \<in> set (snd (saveOnClick (netWritesRefused [dune, foundation]) editing))"
    "sessionClosed (fst (saveOnClick (netWritesRefused [dune, foundation]) editing))"
    by simp_all
  from save_after_failed_write [OF editing_selected, of "netWritesRejected [dune, foundation]"] b
  have e: "GetBooks \<notin> set (snd (saveOnClick (netWritesRejected [dune, foundation]) editing))"
    "fst (saveOnClick (netWritesRejected [dune, foundation]) editing) = editing"
    by simp_all
  from c d e show ?thesis by simp
qed

subsection \<open>A refresh that fails\<close>

text \<open>
  Claim C3: when the request for the books is rejected, or answered outside 2xx, or its
  body does not parse, or says \<^verbatim>\<open>success: false\<close>, or has no data, then
  \<^verbatim>\<open>fetchBooks\<close> returns \<^verbatim>\<open>null\<close> and leaves the state as it was, so the
  catalog held before is retained whole; a save keeps the catalog too, and when the
  failed refresh was requested by a save, the save changes nothing but the selected
  book, which it clears: the session is closed.
\<close>

theorem failed_refresh_keeps_catalog:
  assumes "refreshFailure (net GetBooks)"
  shows "fetchBooks net st = (st, None) \<and>
         apiBooks (fst (saveOnClick net st)) = apiBooks st \<and>
         (GetBooks \<in> set (snd (saveOnClick net st)) \<longrightarrow>
            fst (saveOnClick net st) = st\<lparr>selectedBook := None\<rparr> \<and>
            sessionClosed (fst (saveOnClick net st)))"
proof (cases "selectedBook st")
  case None
  with assms show ?thesis
    by (simp add: fetchBooks_failure saveOnClick_closed)
next
  case (Some sb)
  show ?thesis
  proof (cases "rejects net (putRequest sb st @ postRequest sb st)")
    case True
    with Some assms show ?thesis
      using refresh_issued_iff [OF Some, of net]
      by (simp add: fetchBooks_failure saveOnClick_thrown)
  next
    case False
    with Some assms show ?thesis
      by (simp add: fetchBooks_failure saveOnClick_completed reconcile_def sessionClosed_def)
  qed
qed

text \<open>
  With the refresh rejected, saving the edit of Dune requests the refresh, keeps the
  three books of the catalog and closes the session.
\<close>

theorem failed_refresh_keeps_catalog_witness:
  "refreshFailure (netRefreshDown GetBooks) \<and>
   GetBooks \<in> set (snd (saveOnClick netRefreshDown editing)) \<and>
   apiBooks (fst (saveOnClick netRefreshDown editing)) = [dune, foundation, pamphlet] \<and>
   sessionClosed (fst (saveOnClick netRefreshDown editing))"
proof -
  have f: "refreshFailure (netRefreshDown GetBooks)"
    by (simp add: refreshFailure_def netRefreshDown_def)
  have g: "GetBooks \<in> set (snd (saveOnClick netRefreshDown editing))"
    by (simp add: refresh_issued_iff [OF editing_selected] editing_requests rejects_def
        netRefreshDown_def)
  have bs: "apiBooks editing = [dune, foundation, pamphlet]"
    by (simp add: editing_eq loaded_def)
  from failed_refresh_keeps_catalog [of netRefreshDown editing] f g bs show ?thesis
    by (simp add: sessionClosed_def)
qed

subsection \<open>The review request\<close>

lemma filter_isReview_put: "filter isReview (putRequest sb st) = []"
  by (simp add: putRequest_def isReview_def)

lemma filter_isReview_post: "filter isReview (postRequest sb st) = postRequest sb st"
  by (simp add: postRequest_def isReview_def)

lemma filter_isPut_put: "filter isPut (putRequest sb st) = putRequest sb st"
  by (simp add: putRequest_def isPut_def)

lemma filter_isPut_post: "filter isPut (postRequest sb st) = []"
  by (simp add: postRequest_def isPut_def)

lemma saveOnClick_trace:
  "selectedBook st = Some sb \<Longrightarrow>
   snd (saveOnClick net st) =
     (if rejects net (putRequest sb st) then putRequest sb st
      else if rejects net (postRequest sb st) then putRequest sb st @ postRequest sb st
      else putRequest sb st @ postRequest sb st @ [GetBooks])"
  by (simp add: saveOnClick_def case_prod_beta Let_def)

text \<open>
  Claim C5 as stated says that a save with a rating from 1 to 5 always issues one review
  request. With three stars chosen and a progress update that the network rejects, the
  save stops at the PUT and issues no review request.
\<close>

theorem review_always_issued_counterexample:
  "selectedBook editing = Some dune \<and> rating editing = 3 \<and>
   snd (saveOnClick (netWritesRejected [dune, foundation]) editing) = [PutPagesRead 1 120] \<and>
   filter isReview (snd (saveOnClick (netWritesRejected [dune, foundation]) editing)) = []"
proof -
  have "rating editing = 3"
    by (simp add: editing_eq)
  then show ?thesis
    by (simp add: saveOnClick_trace [OF editing_selected] editing_requests rejects_def
        netWritesRejected_def isReview_def editing_selected)
qed

text \<open>
  Claim C5, amended: a save with \<open>rating = 0\<close> issues no review request. A save with
  a book open and a rating from 1 to 5 issues exactly one review request, carrying the
  book's id, the rating and the empty comment, unless the progress update was issued and
  rejected by the network; then it issues none.
\<close>

theorem review_request_issued:
  "(rating st = 0 \<longrightarrow> filter isReview (snd (saveOnClick net st)) = []) \<and>
   (selectedBook st = Some sb \<and> 1 \<le> rating st \<and> rating st \<le> 5 \<longrightarrow>
      filter isReview (snd (saveOnClick net st)) =
        (if rejects net (putRequest sb st) then []
         else [PostReview (idB sb) (rating st) []]))"
proof (cases "selectedBook st")
  case None
  then show ?thesis by (simp add: saveOnClick_closed)
next
  case (Some b)
  have zero: "rating st = 0 \<Longrightarrow> postRequest b st = []"
    by (simp add: postRequest_def)
  have pos: "1 \<le> rating st \<Longrightarrow> postRequest b st = [PostReview (idB b) (rating st) []]"
    by (simp add: postRequest_def)
  have "filter isReview (snd (saveOnClick net st)) =
          (if rejects net (putRequest b st) then [] else postRequest b st)"
    by (simp add: saveOnClick_trace [OF Some] filter_isReview_put filter_isReview_post
        isReview_def)
  with Some zero pos show ?thesis by auto
qed

text \<open>
  Three stars on Dune give one review request for book 1 with rating 3 and an empty
  comment; a book just opened has rating 0 and its save gives none.
\<close>

theorem review_request_issued_witness:
  "rating editing = 3 \<and>
   filter isReview (snd (saveOnClick (netServing [duneUpdated, foundation]) editing)) =
     [PostReview 1 3 []] \<and>
   rating (openBook dune loaded) = 0 \<and>
   filter isReview (snd (saveOnClick (netServing [duneUpdated, foundation])
     (openBook dune loaded))) = []"
proof -
  have r: "rating editing = 3" "idB dune = 1"
    by (simp_all add: editing_eq dune_def)
  have nr: "\<not> rejects (netServing [duneUpdated, foundation]) (putRequest dune editing)"
    by (simp add: editing_requests rejects_def netServing_def)
  have z: "rating (openBook dune loaded) = 0"
    by (simp add: openBook_def)
  from review_request_issued [of editing "netServing [duneUpdated, foundation]" dune]
    editing_selected r nr
  have a: "filter isReview (snd (saveOnClick (netServing [duneUpdated, foundation]) editing)) =
     [PostReview 1 3 []]"
    by simp
  from review_request_issued [of "openBook dune loaded" "netServing [duneUpdated, foundation]" dune] z
  have b: "filter isReview (snd (saveOnClick (netServing [duneUpdated, foundation])
     (openBook dune loaded))) = []"
    by simp
  from r a z b show ?thesis by simp
qed

subsection \<open>The progress request\<close>

lemma putRequest_apiBooks: "putRequest sb (st\<lparr>apiBooks := bs\<rparr>) = putRequest sb st"
  by (simp add: putRequest_def)

lemma postRequest_apiBooks: "postRequest sb (st\<lparr>apiBooks := bs\<rparr>) = postRequest sb st"
  by (simp add: postRequest_def)

lemma filter_isPut_trace:
  "selectedBook st = Some sb \<Longrightarrow>
   filter isPut (snd (saveOnClick net st)) = putRequest sb st"
  by (simp add: saveOnClick_trace filter_isPut_put filter_isPut_post isPut_def)

text \<open>
  Claim C6: in a save with a book open, the progress updates issued are exactly one
  request carrying the book's id and the draft when the draft differs from the
  \<^verbatim>\<open>pagesRead\<close> of the selected book (the record kept since the book was opened,
  read as 0 when absent), and none when they agree; the request stands in the sequence
  before any request for the books; and the catalog held at the time of the save plays
  no role in it.
\<close>

theorem progress_request_issued:
  assumes "selectedBook st = Some sb"
  shows "filter isPut (snd (saveOnClick net st)) =
           (if pagesRead st \<noteq> or0 (ApiBook.pagesRead sb)
            then [PutPagesRead (idB sb) (pagesRead st)] else []) \<and>
         (pagesRead st \<noteq> or0 (ApiBook.pagesRead sb) \<longrightarrow>
            issuedBefore (PutPagesRead (idB sb) (pagesRead st)) GetBooks
              (snd (saveOnClick net st))) \<and>
         filter isPut (snd (saveOnClick net (st\<lparr>apiBooks := bs\<rparr>))) =
           filter isPut (snd (saveOnClick net st))"
proof -
  have sel: "selectedBook (st\<lparr>apiBooks := bs\<rparr>) = Some sb"
    using assms by simp
  have a: "filter isPut (snd (saveOnClick net st)) =
           (if pagesRead st \<noteq> or0 (ApiBook.pagesRead sb)
            then [PutPagesRead (idB sb) (pagesRead st)] else [])"
    by (simp add: filter_isPut_trace [OF assms] putRequest_def)
  have b: "issuedBefore (PutPagesRead (idB sb) (pagesRead st)) GetBooks
              (snd (saveOnClick net st))"
    if "pagesRead st \<noteq> or0 (ApiBook.pagesRead sb)"
  proof -
    from that have "putRequest sb st = [PutPagesRead (idB sb) (pagesRead st)]"
      by (simp add: putRequest_def)
    then show ?thesis
      by (simp add: issuedBefore_def saveOnClick_trace [OF assms])
  qed
  have c: "filter isPut (snd (saveOnClick net (st\<lparr>apiBooks := bs\<rparr>))) =
           filter isPut (snd (saveOnClick net st))"
    by (simp add: filter_isPut_trace [OF assms] filter_isPut_trace [OF sel] putRequest_apiBooks)
  from a b c show ?thesis by blast
qed

text \<open>
  Dune was opened at 50 pages and the draft is 120: the save issues the PUT for 120
  first, then the review, then the refresh.
\<close>

theorem progress_request_issued_witness:
  "filter isPut (snd (saveOnClick (netServing [duneUpdated, foundation]) editing)) =
     [PutPagesRead 1 120] \<and>
   snd (saveOnClick (netServing [duneUpdated, foundation]) editing) =
     [PutPagesRead 1 120, PostReview 1 3 [], GetBooks] \<and>
   issuedBefore (PutPagesRead 1 120) GetBooks
     (snd (saveOnClick (netServing [duneUpdated, foundation]) editing))"
proof -
  have v: "pagesRead editing = 120" "or0 (ApiBook.pagesRead dune) = 50" "idB dune = 1"
    by (simp_all add: editing_eq dune_def or0_def)
  have t: "snd (saveOnClick (netServing [duneUpdated, foundation]) editing) =
     [PutPagesRead 1 120, PostReview 1 3 [], GetBooks]"
    by (simp add: saveOnClick_trace [OF editing_selected] editing_requests rejects_def
        netServing_def)
  from progress_request_issued [OF editing_selected, of "netServing [duneUpdated, foundation]"] v
  have "filter isPut (snd (saveOnClick (netServing [duneUpdated, foundation]) editing)) =
     [PutPagesRead 1 120]"
   and "issuedBefore (PutPagesRead 1 120) GetBooks
     (snd (saveOnClick (netServing [duneUpdated, foundation]) editing))"
    by simp_all
  with t show ?thesis by simp
qed

subsection \<open>Reconciliation after the refresh\<close>

lemma find_distinct_id:
  "distinct (map idB bs) \<Longrightarrow> u \<in> set bs \<Longrightarrow> find (\<lambda>b. idB b = idB u) bs = Some u"
proof (induction bs)
  case Nil
  then show ?case by simp
next
  case (Cons b bs)
  show ?case
  proof (cases "b = u")
    case True
    then show ?thesis by simp
  next
    case False
    with Cons.prems have u: "u \<in> set bs" and "idB b \<notin> idB ` set bs"
      by auto
    then have "idB b \<noteq> idB u" by blast
    with Cons u show ?thesis by simp
  qed
qed

text \<open>
  Claim C7: in a save with a book open whose refresh was requested and answered with a
  2xx response, \<^verbatim>\<open>success: true\<close> and the books \<open>bs\<close>: when \<open>bs\<close> has a
  book with the id of the open book (the first such, which is the only one when ids
  are unique), the draft becomes that book's \<^verbatim>\<open>pagesRead\<close> (0 when absent), the
  catalog becomes \<open>bs\<close> and the session closes; when \<open>bs\<close> has no such book, the
  catalog becomes \<open>bs\<close>, the session closes and nothing else changes.
\<close>

theorem save_reconciles_draft:
  assumes "selectedBook st = Some sb"
    and "GetBooks \<in> set (snd (saveOnClick net st))"
    and "net GetBooks = Resolved resp" and "ok resp" and "json resp = Some result"
    and "success result" and "data result = Some bs"
  shows "(\<forall>u. find (\<lambda>b. idB b = idB sb) bs = Some u \<longrightarrow>
            fst (saveOnClick net st) =
              st\<lparr>apiBooks := bs, selectedBook := None,
                 pagesRead := or0 (ApiBook.pagesRead u)\<rparr>) \<and>
         (distinct (map idB bs) \<longrightarrow>
            (\<forall>u \<in> set bs. idB u = idB sb \<longrightarrow>
               pagesRead (fst (saveOnClick net st)) = or0 (ApiBook.pagesRead u))) \<and>
         (find (\<lambda>b. idB b = idB sb) bs = None \<longrightarrow>
            fst (saveOnClick net st) = st\<lparr>apiBooks := bs, selectedBook := None\<rparr>) \<and>
         sessionClosed (fst (saveOnClick net st))"
proof -
  have nr: "\<not> rejects net (putRequest sb st @ postRequest sb st)"
    using assms(1,2) by (simp add: refresh_issued_iff)
  have fb: "fetchBooks net st = (st\<lparr>apiBooks := bs\<rparr>, Some bs)"
    using assms(3-7) by (rule fetchBooks_success)
  have sv: "fst (saveOnClick net st) =
        (reconcile sb (Some bs) (st\<lparr>apiBooks := bs\<rparr>))\<lparr>selectedBook := None\<rparr>"
    by (simp add: saveOnClick_completed [OF assms(1) nr] fb)
  have a: "fst (saveOnClick net st) =
              st\<lparr>apiBooks := bs, selectedBook := None,
                 pagesRead := or0 (ApiBook.pagesRead u)\<rparr>"
    if "find (\<lambda>b. idB b = idB sb) bs = Some u" for u
    using that by (simp add: sv reconcile_def)
  have b: "pagesRead (fst (saveOnClick net st)) = or0 (ApiBook.pagesRead u)"
    if "distinct (map idB bs)" "u \<in> set bs" "idB u = idB sb" for u
  proof -
    from find_distinct_id [OF that(1,2)] that(3)
    have "find (\<lambda>b. idB b = idB sb) bs = Some u" by simp
    from a [OF this] show ?thesis by simp
  qed
  have c: "fst (saveOnClick net st) = st\<lparr>apiBooks := bs, selectedBook := None\<rparr>"
    if "find (\<lambda>b. idB b = idB sb) bs = None"
    using that by (simp add: sv reconcile_def)
  have d: "sessionClosed (fst (saveOnClick net st))"
    by (simp add: sv sessionClosed_def)
  from a b c d show ?thesis by blast
qed

lemma serving_issues_refresh:
  "GetBooks \<in> set (snd (saveOnClick (netServing bs) editing))"
  by (simp add: refresh_issued_iff [OF editing_selected] editing_requests rejects_def
      netServing_def)

text \<open>
  The store returns Dune at 120 pages: the draft is 120. It returns Dune at 50 pages, as
  if the write had been lost: the draft goes back to 50. It returns a catalog without
  Dune: the session closes and the draft stays.
\<close>

theorem save_reconciles_draft_witness:
  "pagesRead (fst (saveOnClick (netServing [duneUpdated, foundation]) editing)) = 120 \<and>
   pagesRead (fst (saveOnClick (netServing [dune, foundation]) editing)) = 50 \<and>
   fst (saveOnClick (netServing [foundation]) editing) =
     editing\<lparr>apiBooks := [foundation], selectedBook := None\<rparr> \<and>
   sessionClosed (fst (saveOnClick (netServing [foundation]) editing))"
proof -
  have n: "netServing bs GetBooks = Resolved (booksPayload bs)" for bs
    by (simp add: netServing_def)
  have p: "ok (booksPayload bs)"
    "json (booksPayload bs) = Some \<lparr>success = True, data = Some bs, timestamp = []\<rparr>" for bs
    by (simp_all add: booksPayload_def)
  have r: "success \<lparr>success = True, data = Some bs, timestamp = []\<rparr>"
    "data \<lparr>success = True, data = Some bs, timestamp = []\<rparr> = Some bs" for bs :: "ApiBook list"
    by simp_all
  note w = save_reconciles_draft [OF editing_selected serving_issues_refresh n p r]
  have f1: "find (\<lambda>b. idB b = idB dune) [duneUpdated, foundation] = Some duneUpdated"
    by (simp add: duneUpdated_def dune_def)
  have f2: "find (\<lambda>b. idB b = idB dune) [dune, foundation] = Some dune"
    by simp
  have f3: "find (\<lambda>b. idB b = idB dune) [foundation] = None"
    by (simp add: foundation_def dune_def)
  have v: "or0 (ApiBook.pagesRead duneUpdated) = 120" "or0 (ApiBook.pagesRead dune) = 50"
    by (simp_all add: duneUpdated_def dune_def or0_def)
  from w [of "[duneUpdated, foundation]"] f1 v
  have a: "pagesRead (fst (saveOnClick (netServing [duneUpdated, foundation]) editing)) = 120"
    by simp
  from w [of "[dune, foundation]"] f2 v
  have b: "pagesRead (fst (saveOnClick (netServing [dune, foundation]) editing)) = 50"
    by simp
  from w [of "[foundation]"] f3
  have c: "fst (saveOnClick (netServing [foundation]) editing) =
     editing\<lparr>apiBooks := [foundation], selectedBook := None\<rparr>"
    "sessionClosed (fst (saveOnClick (netServing [foundation]) editing))"
    by (simp_all add: sessionClosed_def)
  from a b c show ?thesis by simp
qed

subsection \<open>The status filter\<close>

lemma bookVisible_status_selected:
  assumes "activeFilter st = FilterStatus" and "selectedStatus st = Some sid" and "sid \<noteq> []"
  shows "bookVisible u rs st b =
           (matchesSearch u (searchQuery st) b \<and> statusLabel rs sid = Some (ApiBook.status b))"
proof (cases "find (\<lambda>s. reading_status_id s = sid) rs")
  case None
  with assms show ?thesis
    by (simp add: bookVisible_def truthy_def statusLabel_def)
next
  case (Some s)
  with assms show ?thesis
    by (auto simp: bookVisible_def truthy_def statusLabel_def)
qed

lemma bookVisible_status_unselected:
  assumes "activeFilter st = FilterStatus" and "selectedStatus st = None"
  shows "bookVisible u rs st b = matchesSearch u (searchQuery st) b"
  using assms by (simp add: bookVisible_def truthy_def)

text \<open>
  What the filter computes under the status mode when the selected id is not the empty
  string, and when nothing is selected: there the code does what the specification says.
\<close>

lemma status_filter_selected:
  assumes "activeFilter st = FilterStatus" and "selectedStatus st = Some sid" and "sid \<noteq> []"
  shows "filteredApiBooks u rs st =
           filter (\<lambda>b. matchesSearch u (searchQuery st) b \<and>
                        statusLabel rs sid = Some (ApiBook.status b)) (apiBooks st)"
  by (simp add: filteredApiBooks_filter bookVisible_status_selected [OF assms]
      cong: filter_cong)

lemma status_filter_unselected:
  assumes "activeFilter st = FilterStatus" and "selectedStatus st = None"
  shows "filteredApiBooks u rs st = filter (matchesSearch u (searchQuery st)) (apiBooks st)"
  by (simp add: filteredApiBooks_filter bookVisible_status_unselected [OF assms]
      cong: filter_cong)

text \<open>
  Scenario 1 of the specification: under the status mode with Finished selected, only
  Foundation is visible.
\<close>

lemma status_filter_scenario:
  "filteredApiBooks ucdFragment statuses
     (statusBadgeOnClick (statuses ! 2) (handleFilterChange FilterStatus loaded)) = [foundation]"
proof -
  let ?st = "statusBadgeOnClick (statuses ! 2) (handleFilterChange FilterStatus loaded)"
  have s1: "activeFilter ?st = FilterStatus" "selectedStatus ?st = Some (lit ''s3'')"
    "searchQuery ?st = []" "apiBooks ?st = [dune, foundation, pamphlet]"
    by (simp_all add: statusBadgeOnClick_def handleFilterChange_def loaded_def
        initialState_def statuses_def)
  have ne: "lit ''s3'' \<noteq> []"
    by (simp add: lit_def)
  have l: "statusLabel statuses (lit ''s3'') = Some (lit ''Finished'')"
    by (simp add: statusLabel_def statuses_def lit_def)
  have st: "ApiBook.status dune = lit ''Reading''" "ApiBook.status foundation = lit ''Finished''"
    "ApiBook.status pamphlet = lit ''Not started''"
    by (simp_all add: dune_def foundation_def pamphlet_def)
  have neq: "lit ''Finished'' \<noteq> lit ''Reading''" "lit ''Finished'' \<noteq> lit ''Not started''"
    by (simp_all add: lit_def)
  show ?thesis
    by (simp add: status_filter_selected [OF s1(1,2) ne] s1 l st neq matchesSearch_def)
qed

text \<open>
  Claim C9: under the status mode with a selected value other than none, a book passes
  exactly when the value resolves through the reading statuses to the book's status. The
  guard of the filter (line 111) tests the truth value of the selected id, where the
  badge (line 200) and its click handler (line 203) compare with \<^verbatim>\<open>===\<close>. With a
  reference list whose status Finished has the empty string as its id, clicking that
  badge selects the empty string and the badge is drawn as selected; the id resolves to
  Finished; yet Dune, whose status is Reading, passes the filter, and the whole catalog
  stays visible.
\<close>

theorem status_filter_empty_id:
  "activeFilter emptyIdSelected = FilterStatus \<and>
   selectedStatus emptyIdSelected = Some [] \<and>
   statusBadgeSelected (hd statusesEmptyId) emptyIdSelected \<and>
   statusLabel statusesEmptyId [] = Some (lit ''Finished'') \<and>
   ApiBook.status dune = lit ''Reading'' \<and>
   bookVisible ucdFragment statusesEmptyId emptyIdSelected dune \<and>
   filteredApiBooks ucdFragment statusesEmptyId emptyIdSelected = [dune, foundation, pamphlet]"
proof -
  have s: "activeFilter emptyIdSelected = FilterStatus" "selectedStatus emptyIdSelected = Some []"
    "searchQuery emptyIdSelected = []" "apiBooks emptyIdSelected = [dune, foundation, pamphlet]"
    by (simp_all add: emptyIdSelected_def statusBadgeOnClick_def handleFilterChange_def
        statusesEmptyId_def loaded_def initialState_def)
  have b: "statusBadgeSelected (hd statusesEmptyId) emptyIdSelected"
    by (simp add: statusBadgeSelected_def s statusesEmptyId_def)
  have l: "statusLabel statusesEmptyId [] = Some (lit ''Finished'')"
    by (simp add: statusLabel_def statusesEmptyId_def)
  have d: "ApiBook.status dune = lit ''Reading''"
    by (simp add: dune_def)
  have v: "bookVisible ucdFragment statusesEmptyId emptyIdSelected = (\<lambda>b. True)"
    by (rule ext) (simp add: bookVisible_def truthy_def s matchesSearch_def)
  have f: "filteredApiBooks ucdFragment statusesEmptyId emptyIdSelected =
             [dune, foundation, pamphlet]"
    by (simp add: filteredApiBooks_filter v s)
  from s b l d v f show ?thesis by simp
qed

subsection \<open>The search predicate\<close>













text \<open>The case-insensitive substring, said with the segment of the text that matches.\<close>

lemma ciPrefix_iff: "ciPrefix q t \<longleftrightarrow> (\<exists>s ss. t = s @ ss \<and> list_all2 sameLetter q s)"
proof (induction q t rule: ciPrefix.induct)
  case (1 t)
  then show ?case by simp
next
  case (2 a q)
  then show ?case by simp
next
  case (3 a q b t)
  show ?case
  proof
    assume "ciPrefix (a # q) (b # t)"
    then have ab: "sameLetter a b" and "ciPrefix q t" by auto
    then obtain s ss where "t = s @ ss" "list_all2 sameLetter q s" using 3 by auto
    then have "b # t = (b # s) @ ss \<and> list_all2 sameLetter (a # q) (b # s)" using ab by simp
    then show "\<exists>s ss. b # t = s @ ss \<and> list_all2 sameLetter (a # q) s" by blast
  next
    assume "\<exists>s ss. b # t = s @ ss \<and> list_all2 sameLetter (a # q) s"
    then obtain s ss where e: "b # t = s @ ss" and l: "list_all2 sameLetter (a # q) s" by auto
    from l obtain s1 s' where s: "s = s1 # s'" and ab: "sameLetter a s1"
      and l': "list_all2 sameLetter q s'"
      by (auto simp: list_all2_Cons1)
    from e s have "b = s1" "t = s' @ ss" by auto
    then show "ciPrefix (a # q) (b # t)" using ab l' 3 by auto
  qed
qed

lemma ciSubstring_iff:
  "ciSubstring q t \<longleftrightarrow> (\<exists>ps s ss. t = ps @ s @ ss \<and> list_all2 sameLetter q s)"
proof (induction t)
  case Nil
  then show ?case by auto
next
  case (Cons c cs)
  show ?case
  proof
    assume "ciSubstring q (c # cs)"
    then consider "ciPrefix q (c # cs)" | "ciSubstring q cs" by auto
    then show "\<exists>ps s ss. c # cs = ps @ s @ ss \<and> list_all2 sameLetter q s"
    proof cases
      case 1
      then obtain s ss where "c # cs = s @ ss" "list_all2 sameLetter q s"
        by (auto simp: ciPrefix_iff)
      then have "c # cs = [] @ s @ ss \<and> list_all2 sameLetter q s" by simp
      then show ?thesis by blast
    next
      case 2
      then obtain ps s ss where "cs = ps @ s @ ss" "list_all2 sameLetter q s"
        using Cons.IH by auto
      then have "c # cs = (c # ps) @ s @ ss \<and> list_all2 sameLetter q s" by simp
      then show ?thesis by blast
    qed
  next
    assume "\<exists>ps s ss. c # cs = ps @ s @ ss \<and> list_all2 sameLetter q s"
    then obtain ps s ss where e: "c # cs = ps @ s @ ss" and l: "list_all2 sameLetter q s"
      by auto
    show "ciSubstring q (c # cs)"
    proof (cases ps)
      case Nil
      with e l have "ciPrefix q (c # cs)" by (auto simp: ciPrefix_iff)
      then show ?thesis by simp
    next
      case (Cons p ps')
      with e have "cs = ps' @ s @ ss" by simp
      with l have "ciSubstring q cs" using Cons.IH by blast
      then show ?thesis by simp
    qed
  qed
qed








end
